theory Spec2Isabelle
  imports Main
begin

section \<open>Data model of \<open>src/App.tsx\<close>\<close>

text \<open>
  \<open>interface SitemapUrl { url: string; visited: boolean }\<close>
\<close>

record SitemapUrl =
  url :: string
  visited :: bool

text \<open>
  The document returned by the browser's \<open>DOMParser\<close>. Only the two kinds of node that
  \<open>getElementsByTagName\<close> and \<open>textContent\<close> look at are kept: text nodes and elements
  with their children in document order. The XML parser itself belongs to the browser,
  not to this program, so every function below that parses takes it as the parameter
  \<open>P :: string \<Rightarrow> xml\<close> (the root element of \<open>parseFromString(content, 'text/xml')\<close>).
\<close>

datatype xml = Text string | Element string "xml list"

fun textContent :: "xml \<Rightarrow> string" where
  "textContent (Text t) = t"
| "textContent (Element n cs) = concat (map textContent cs)"

text \<open>\<open>document.getElementsByTagName(name)\<close>: the matching elements, root included, in
  document (pre-)order.\<close>

fun getElementsByTagName :: "string \<Rightarrow> xml \<Rightarrow> xml list" where
  "getElementsByTagName name (Text t) = []"
| "getElementsByTagName name (Element n cs) =
     (if n = name then [Element n cs] else []) @ concat (map (getElementsByTagName name) cs)"

text \<open>JavaScript's \<open>a || b\<close> on strings: the empty string is falsy.\<close>

definition js_or :: "string \<Rightarrow> string \<Rightarrow> string" where
  "js_or a b = (if a = [] then b else a)"

definition parseSitemap :: "(string \<Rightarrow> xml) \<Rightarrow> string \<Rightarrow> SitemapUrl list" where
  "parseSitemap P content =
     (let xmlDoc = P content;
          locations = getElementsByTagName ''loc'' xmlDoc
      in map (\<lambda>loc. \<lparr>url = js_or (textContent loc) [], visited = False\<rparr>) locations)"

text \<open>
  What a scheduled \<open>processNextUrl\<close> remembers: the function is created anew at every
  render and reads \<open>currentIndex\<close>, \<open>urls\<close> and \<open>isPaused\<close> of that render, whatever the
  state is when the timer finally calls it.
\<close>

record closure =
  cl_currentIndex :: int
  cl_urls :: "SitemapUrl list"
  cl_isPaused :: bool

text \<open>
  The twelve \<open>useState\<close> cells of the component, followed by what lives outside React
  state: the pending \<open>setTimeout\<close> (with the closure it will call), whether the
  one-second \<open>setInterval\<close> is running, and the log of \<open>window.open\<close> calls (oldest
  first). Numbers are modelled as unbounded integers.
\<close>

record state =
  sitemapContent :: string
  urls :: "SitemapUrl list"
  isProcessing :: bool
  currentIndex :: int
  isPaused :: bool
  sitemapUrl :: string
  isLoading :: bool
  error :: string
  timeDelay :: int
  showPermissionDialog :: bool
  nextPageCountdown :: int
  estimatedTimeLeft :: string
  timer :: "closure option"
  countdownTimer :: bool
  opened :: "string list"

definition init :: state where
  "init = \<lparr>sitemapContent = [], urls = [], isProcessing = False, currentIndex = - 1,
     isPaused = False, sitemapUrl = [], isLoading = False, error = [], timeDelay = 30,
     showPermissionDialog = False, nextPageCountdown = 0, estimatedTimeLeft = [],
     timer = None, countdownTimer = False, opened = []\<rparr>"

section \<open>Event handlers\<close>

text \<open>\<open>reader.onload\<close> of \<open>handleFileUpload\<close>.\<close>

definition handleFileUpload :: "(string \<Rightarrow> xml) \<Rightarrow> string \<Rightarrow> state \<Rightarrow> state" where
  "handleFileUpload P content s =
     s\<lparr>sitemapContent := content, urls := parseSitemap P content,
       currentIndex := - 1, error := []\<rparr>"

text \<open>
  \<open>fetchSitemap\<close> is asynchronous: the part before \<open>await fetch(url)\<close> runs at once, the
  rest when the request settles. The outcome of the request is a network failure
  (\<open>fetch\<close> rejects) or a response with its \<open>ok\<close> flag and its body (\<open>None\<close> when
  \<open>response.text()\<close> rejects).
\<close>

datatype fetch_outcome = NetworkFailure | Response bool "string option"

definition fetch_failed_message :: string where
  "fetch_failed_message = ''Failed to fetch sitemap. Please check the URL and try again.''"

definition fetchSitemap_begin :: "state \<Rightarrow> state" where
  "fetchSitemap_begin s = s\<lparr>isLoading := True, error := []\<rparr>"

definition fetchSitemap_catch :: "state \<Rightarrow> state" where
  "fetchSitemap_catch s = s\<lparr>error := fetch_failed_message, urls := []\<rparr>"

definition fetchSitemap_settle :: "(string \<Rightarrow> xml) \<Rightarrow> fetch_outcome \<Rightarrow> state \<Rightarrow> state" where
  "fetchSitemap_settle P r s =
     (let s' = (case r of
                  NetworkFailure \<Rightarrow> fetchSitemap_catch s
                | Response ok body \<Rightarrow>
                    if \<not> ok then fetchSitemap_catch s
                    else (case body of
                            None \<Rightarrow> fetchSitemap_catch s
                          | Some content \<Rightarrow>
                              s\<lparr>sitemapContent := content, urls := parseSitemap P content,
                                currentIndex := - 1\<rparr>))
      in s'\<lparr>isLoading := False\<rparr>)"

definition handleUrlSubmit :: "state \<Rightarrow> state" where
  "handleUrlSubmit s = (if sitemapUrl s \<noteq> [] then fetchSitemap_begin s else s)"

text \<open>\<open>parseInt\<close> yields an integer or \<open>NaN\<close> (\<open>None\<close>); \<open>NaN >= 20\<close> is false.\<close>

definition handleTimeDelayChange :: "int option \<Rightarrow> state \<Rightarrow> state" where
  "handleTimeDelayChange v s =
     (case v of
        None \<Rightarrow> s
      | Some value \<Rightarrow> if \<not> isProcessing s \<and> value \<ge> 20 then s\<lparr>timeDelay := value\<rparr> else s)"

text \<open>\<open>prev.map((url, idx) => idx === nextIndex ? { ...url, visited: true } : url)\<close>\<close>

definition mark_visited :: "int \<Rightarrow> SitemapUrl list \<Rightarrow> SitemapUrl list" where
  "mark_visited nextIndex prev =
     map (\<lambda>(idx, u). if int idx = nextIndex then u\<lparr>visited := True\<rparr> else u) (enumerate 0 prev)"

text \<open>
  \<open>processNextUrl\<close>, called with the variables of the render that created it (\<open>c\<close>) on
  the state of the moment (\<open>s\<close>). \<open>urls[nextIndex]\<close> is \<open>undefined\<close> for a negative index,
  and reading \<open>.url\<close> of it throws: the function stops there, after \<open>setCurrentIndex\<close>.
\<close>

definition processNextUrl :: "closure \<Rightarrow> state \<Rightarrow> state" where
  "processNextUrl c s =
     (if cl_currentIndex c < int (length (cl_urls c)) - 1 \<and> \<not> cl_isPaused c then
        let nextIndex = cl_currentIndex c + 1;
            s1 = s\<lparr>currentIndex := nextIndex\<rparr>
        in if nextIndex < 0 then s1
           else s1\<lparr>opened := opened s1 @ [url (cl_urls c ! nat nextIndex)],
                   urls := mark_visited nextIndex (urls s1)\<rparr>
      else if cl_currentIndex c = int (length (cl_urls c)) - 1 then s\<lparr>isProcessing := False\<rparr>
      else s)"

definition render_closure :: "state \<Rightarrow> closure" where
  "render_closure s =
     \<lparr>cl_currentIndex = currentIndex s, cl_urls = urls s, cl_isPaused = isPaused s\<rparr>"

definition startProcessing :: "state \<Rightarrow> state" where
  "startProcessing s = s\<lparr>showPermissionDialog := True\<rparr>"

definition confirmStart :: "state \<Rightarrow> state" where
  "confirmStart s =
     (let s1 = s\<lparr>showPermissionDialog := False, isProcessing := True, isPaused := False\<rparr>
      in if currentIndex s = - 1 then processNextUrl (render_closure s) s1 else s1)"

definition resetProcess :: "state \<Rightarrow> state" where
  "resetProcess s =
     s\<lparr>urls := map (\<lambda>u. u\<lparr>visited := False\<rparr>) (urls s), currentIndex := - 1,
       isProcessing := False, isPaused := False, estimatedTimeLeft := [],
       nextPageCountdown := 0\<rparr>"

section \<open>Effects\<close>

text \<open>The dependency array shared by both \<open>useEffect\<close> calls.\<close>

definition deps :: "state \<Rightarrow> int \<times> bool \<times> bool \<times> nat \<times> int" where
  "deps s = (currentIndex s, isProcessing s, isPaused s, length (urls s), timeDelay s)"

text \<open>The guard of the timer effect.\<close>

definition arming :: "state \<Rightarrow> bool" where
  "arming s = (isProcessing s \<and> \<not> isPaused s \<and> currentIndex s < int (length (urls s)) - 1)"

text \<open>Decimal rendering of a number inside a template literal.\<close>

fun decimal :: "nat \<Rightarrow> string" where
  "decimal n =
     (if n < 10 then [''0123456789'' ! n]
      else decimal (n div 10) @ [''0123456789'' ! (n mod 10)])"

declare decimal.simps [simp del]

text \<open>JavaScript's \<open>%\<close>: the remainder has the sign of the dividend.\<close>

definition js_rem :: "int \<Rightarrow> int \<Rightarrow> int" where
  "js_rem a b = sgn a * (\<bar>a\<bar> mod \<bar>b\<bar>)"

text \<open>\<open>Array.prototype.join(' ')\<close>\<close>

fun join_sp :: "string list \<Rightarrow> string" where
  "join_sp [] = []"
| "join_sp [x] = x"
| "join_sp (x # y # ys) = x @ '' '' @ join_sp (y # ys)"

definition timeString :: "int \<Rightarrow> string" where
  "timeString totalSeconds =
     (let hours = totalSeconds div 3600;
          minutes = js_rem totalSeconds 3600 div 60;
          seconds = js_rem totalSeconds 60
      in join_sp ((if hours > 0 then [decimal (nat hours) @ ''h''] else [])
                @ (if minutes > 0 then [decimal (nat minutes) @ ''m''] else [])
                @ (if seconds > 0 then [decimal (nat seconds) @ ''s''] else [])))"

definition eta :: "state \<Rightarrow> string" where
  "eta s =
     (if isProcessing s \<and> \<not> isPaused s then
        let remainingUrls = int (length (urls s)) - (currentIndex s + 1);
            totalSeconds = remainingUrls * timeDelay s
        in timeString totalSeconds
      else [])"

text \<open>
  What React does after a handler has updated the state from \<open>old\<close> to \<open>new\<close>: when a
  dependency differs, the previous clean-up runs (both timers are cleared) and both effects
  run again on the new render, in source order; otherwise nothing happens.
\<close>

definition commit :: "state \<Rightarrow> state \<Rightarrow> state" where
  "commit old new =
     (if deps old = deps new then new
      else
        let cleaned = new\<lparr>timer := None, countdownTimer := False\<rparr>;
            armed = (if arming new
                     then cleaned\<lparr>nextPageCountdown := timeDelay new, countdownTimer := True,
                                  timer := Some (render_closure new)\<rparr>
                     else cleaned)
        in armed\<lparr>estimatedTimeLeft := eta new\<rparr>)"

section \<open>Events\<close>

datatype event =
    SitemapUrlInput string
  | UrlSubmit
  | FetchSettled fetch_outcome
  | FileLoaded string
  | TimeDelayInput "int option"
  | StartClicked
  | CancelClicked
  | ConfirmClicked
  | PauseResumeClicked
  | ResetClicked
  | TimeoutFired
  | IntervalTick

text \<open>The handler of an event, followed by the commit of the new render.\<close>

definition handle :: "(string \<Rightarrow> xml) \<Rightarrow> event \<Rightarrow> state \<Rightarrow> state" where
  "handle P e s =
     (case e of
        SitemapUrlInput v \<Rightarrow> commit s (s\<lparr>sitemapUrl := v\<rparr>)
      | UrlSubmit \<Rightarrow> commit s (handleUrlSubmit s)
      | FetchSettled r \<Rightarrow> commit s (fetchSitemap_settle P r s)
      | FileLoaded content \<Rightarrow> commit s (handleFileUpload P content s)
      | TimeDelayInput v \<Rightarrow> commit s (handleTimeDelayChange v s)
      | StartClicked \<Rightarrow> commit s (startProcessing s)
      | CancelClicked \<Rightarrow> commit s (s\<lparr>showPermissionDialog := False\<rparr>)
      | ConfirmClicked \<Rightarrow> commit s (confirmStart s)
      | PauseResumeClicked \<Rightarrow> commit s (s\<lparr>isPaused := \<not> isPaused s\<rparr>)
      | ResetClicked \<Rightarrow> commit s (resetProcess s)
      | TimeoutFired \<Rightarrow>
          (case timer s of
             None \<Rightarrow> s
           | Some c \<Rightarrow> commit s (processNextUrl c (s\<lparr>timer := None\<rparr>)))
      | IntervalTick \<Rightarrow>
          (if countdownTimer s
           then commit s (s\<lparr>nextPageCountdown := max 0 (nextPageCountdown s - 1)\<rparr>)
           else s))"

text \<open>
  Which events the rendered page offers: the controls block exists only for a non-empty
  list, Start and Pause/Resume replace each other, the delay input is disabled while
  processing, the submit button while loading, and the dialog buttons exist only while
  the dialog is shown.
\<close>

definition enabled :: "event \<Rightarrow> state \<Rightarrow> bool" where
  "enabled e s =
     (case e of
        UrlSubmit \<Rightarrow> \<not> isLoading s
      | TimeDelayInput v \<Rightarrow> \<not> isProcessing s
      | StartClicked \<Rightarrow> urls s \<noteq> [] \<and> \<not> isProcessing s
      | PauseResumeClicked \<Rightarrow> urls s \<noteq> [] \<and> isProcessing s
      | ResetClicked \<Rightarrow> urls s \<noteq> []
      | CancelClicked \<Rightarrow> showPermissionDialog s
      | ConfirmClicked \<Rightarrow> showPermissionDialog s
      | TimeoutFired \<Rightarrow> timer s \<noteq> None
      | IntervalTick \<Rightarrow> countdownTimer s
      | _ \<Rightarrow> True)"

definition dispatch :: "(string \<Rightarrow> xml) \<Rightarrow> event \<Rightarrow> state \<Rightarrow> state" where
  "dispatch P e s = (if enabled e s then handle P e s else s)"

text \<open>The state after a sequence of events, starting from the first render.\<close>

definition run :: "(string \<Rightarrow> xml) \<Rightarrow> event list \<Rightarrow> state" where
  "run P evs = foldl (\<lambda>s e. dispatch P e s) init evs"

section \<open>Invariants of the running page\<close>

text \<open>
  A pending timeout exists exactly when the guard of the timer effect holds, and its
  closure agrees with the state on everything \<open>processNextUrl\<close> branches on.
\<close>

definition timer_ok :: "state \<Rightarrow> bool" where
  "timer_ok s =
     (case timer s of
        None \<Rightarrow> \<not> arming s
      | Some c \<Rightarrow> arming s \<and> cl_currentIndex c = currentIndex s
                 \<and> length (cl_urls c) = length (urls s) \<and> \<not> cl_isPaused c)"

text \<open>The visited records are exactly those up to \<open>currentIndex\<close>.\<close>

definition visited_upto :: "state \<Rightarrow> bool" where
  "visited_upto s =
     (\<forall>i < length (urls s). visited (urls s ! i) = (int i \<le> currentIndex s))"

definition core_inv :: "state \<Rightarrow> bool" where
  "core_inv s =
     (20 \<le> timeDelay s \<and> - 1 \<le> currentIndex s \<and> visited_upto s
      \<and> (\<not> isProcessing s \<longrightarrow> currentIndex s = - 1 \<and> \<not> isPaused s)
      \<and> (showPermissionDialog s \<longrightarrow> \<not> isProcessing s))"

definition sched_inv :: "state \<Rightarrow> bool" where
  "sched_inv s =
     (timer_ok s \<and> countdownTimer s = arming s \<and> estimatedTimeLeft s = eta s)"

definition app_inv :: "state \<Rightarrow> bool" where
  "app_inv s = (core_inv s \<and> sched_inv s)"

section \<open>Notions of the specification\<close>

text \<open>All nodes of a document in document order, and the test for an element of a given
  name: the specification's "every \<open><loc>\<close> element, in document order".\<close>

fun preorder :: "xml \<Rightarrow> xml list" where
  "preorder (Text t) = [Text t]"
| "preorder (Element n cs) = Element n cs # concat (map preorder cs)"

fun is_element :: "string \<Rightarrow> xml \<Rightarrow> bool" where
  "is_element name (Text t) = False"
| "is_element name (Element n cs) = (n = name)"

text \<open>The number of elements of a given name in a document.\<close>

fun count_tag :: "string \<Rightarrow> xml \<Rightarrow> nat" where
  "count_tag name (Text t) = 0"
| "count_tag name (Element n cs) =
     (if n = name then 1 else 0) + sum_list (map (count_tag name) cs)"

text \<open>Trimming as the specification words it: white space removed at both ends.\<close>

definition is_space :: "char \<Rightarrow> bool" where
  "is_space ch = (ch = CHR '' '' \<or> ch = CHR 0x09 \<or> ch = CHR 0x0A \<or> ch = CHR 0x0D)"

definition spec_trim :: "string \<Rightarrow> string" where
  "spec_trim t = rev (dropWhile is_space (rev (dropWhile is_space t)))"

text \<open>The parser as the specification words it: one record per \<open><loc>\<close> element, in
  document order, holding the trimmed text content.\<close>

definition spec_parseSitemap :: "(string \<Rightarrow> xml) \<Rightarrow> string \<Rightarrow> SitemapUrl list" where
  "spec_parseSitemap P content =
     map (\<lambda>loc. \<lparr>url = spec_trim (textContent loc), visited = False\<rparr>)
       (filter (is_element ''loc'') (preorder (P content)))"






text \<open>A remote load fails on a network error, on a response that is not 2xx, and when
  the body cannot be read.\<close>

definition fetch_fails :: "fetch_outcome \<Rightarrow> bool" where
  "fetch_fails r =
     (case r of NetworkFailure \<Rightarrow> True | Response ok body \<Rightarrow> \<not> ok \<or> body = None)"

section \<open>Sample inputs\<close>

text \<open>A browser parser that is only ever shown one document.\<close>

definition only_document :: "xml \<Rightarrow> string \<Rightarrow> xml" where
  "only_document d content = d"

definition abc_src :: string where
  "abc_src = ''<urlset><url><loc>A</loc></url><url><loc>B</loc></url><url><loc>C</loc></url></urlset>''"

definition abc_doc :: xml where
  "abc_doc = Element ''urlset''
     [Element ''url'' [Element ''loc'' [Text ''A'']],
      Element ''url'' [Element ''loc'' [Text ''B'']],
      Element ''url'' [Element ''loc'' [Text ''C'']]]"

definition padded_src :: string where
  "padded_src = ''<urlset><url><loc> https://a.example/ </loc></url></urlset>''"

definition padded_doc :: xml where
  "padded_doc = Element ''urlset'' [Element ''url'' [Element ''loc'' [Text '' https://a.example/ '']]]"

definition single_src :: string where
  "single_src = ''<urlset><url><loc>A</loc></url></urlset>''"

definition single_doc :: xml where
  "single_doc = Element ''urlset'' [Element ''url'' [Element ''loc'' [Text ''A'']]]"

text \<open>Load three URLs, start, and let the timeout fire once: A and B are visited.\<close>

definition two_visits :: "event list" where
  "two_visits = [FileLoaded abc_src, StartClicked, ConfirmClicked, TimeoutFired]"



text \<open>Paused in the middle of the countdown to the second URL.\<close>

definition paused_midway :: "event list" where
  "paused_midway =
     [FileLoaded abc_src, StartClicked, ConfirmClicked, IntervalTick, IntervalTick,
      PauseResumeClicked]"

text \<open>A sitemap of one URL: started, then paused.\<close>

definition single_paused :: "event list" where
  "single_paused = [FileLoaded single_src, StartClicked, ConfirmClicked, PauseResumeClicked]"

text \<open>A remote load that fails while the sequencer is at the first URL.\<close>

definition fetch_fails_while_running :: "event list" where
  "fetch_fails_while_running =
     [FileLoaded abc_src, StartClicked, ConfirmClicked, SitemapUrlInput ''https://b.example/sitemap.xml'',
      UrlSubmit, FetchSettled NetworkFailure]"

text \<open>A remote load is under way when the dialog is opened, and fails under it: the
  list is empty and the dialog still open.\<close>

definition emptied_under_dialog :: "event list" where
  "emptied_under_dialog =
     [FileLoaded abc_src, SitemapUrlInput ''https://b.example/sitemap.xml'', UrlSubmit,
      StartClicked, FetchSettled (Response False None)]"


section \<open>Preservation of the invariants\<close>


lemma length_mark_visited [simp]: "length (mark_visited n us) = length us"
  by (simp add: mark_visited_def)

lemma nth_mark_visited:
  "i < length us \<Longrightarrow>
   mark_visited n us ! i = (if int i = n then (us ! i)\<lparr>visited := True\<rparr> else us ! i)"
  by (simp add: mark_visited_def nth_enumerate_eq)

lemma commit_fields [simp]:
  "urls (commit old new) = urls new"
  "currentIndex (commit old new) = currentIndex new"
  "isProcessing (commit old new) = isProcessing new"
  "isPaused (commit old new) = isPaused new"
  "timeDelay (commit old new) = timeDelay new"
  "showPermissionDialog (commit old new) = showPermissionDialog new"
  "opened (commit old new) = opened new"
  "error (commit old new) = error new"
  "isLoading (commit old new) = isLoading new"
  "sitemapContent (commit old new) = sitemapContent new"
  "sitemapUrl (commit old new) = sitemapUrl new"
  by (simp_all add: commit_def Let_def)

lemma commit_timer:
  "timer (commit old new) =
     (if deps old = deps new then timer new
      else if arming new then Some (render_closure new) else None)"
  by (simp add: commit_def Let_def)

lemma commit_countdownTimer:
  "countdownTimer (commit old new) =
     (if deps old = deps new then countdownTimer new else arming new)"
  by (simp add: commit_def Let_def)

lemma commit_estimatedTimeLeft:
  "estimatedTimeLeft (commit old new) =
     (if deps old = deps new then estimatedTimeLeft new else eta new)"
  by (simp add: commit_def Let_def)

lemma commit_nextPageCountdown:
  "nextPageCountdown (commit old new) =
     (if deps old \<noteq> deps new \<and> arming new then timeDelay new else nextPageCountdown new)"
  by (simp add: commit_def Let_def)

lemma arming_deps: "deps a = deps b \<Longrightarrow> arming a = arming b"
  by (simp add: deps_def arming_def)

lemma eta_deps: "deps a = deps b \<Longrightarrow> eta a = eta b"
  by (simp add: deps_def eta_def)

lemma deps_commit [simp]: "deps (commit old new) = deps new"
  by (simp add: deps_def)

lemma arming_commit [simp]: "arming (commit old new) = arming new"
  by (rule arming_deps) simp

lemma eta_commit [simp]: "eta (commit old new) = eta new"
  by (rule eta_deps) simp





lemma sched_inv_commit:
  assumes "sched_inv old"
    and "deps old = deps new \<Longrightarrow>
           timer new = timer old \<and> countdownTimer new = countdownTimer old
           \<and> estimatedTimeLeft new = estimatedTimeLeft old"
  shows "sched_inv (commit old new)"
proof (cases "deps old = deps new")
  case True
  with assms have same: "timer new = timer old" "countdownTimer new = countdownTimer old"
    "estimatedTimeLeft new = estimatedTimeLeft old" by simp_all
  from True have "currentIndex new = currentIndex old" "length (urls new) = length (urls old)"
    by (simp_all add: deps_def)
  with True assms(1) same show ?thesis
    using arming_deps [OF True] eta_deps [OF True]
    by (auto simp: sched_inv_def timer_ok_def commit_timer commit_countdownTimer
        commit_estimatedTimeLeft split: option.splits)
next
  case False
  then show ?thesis
    by (simp add: sched_inv_def timer_ok_def commit_timer commit_countdownTimer
        commit_estimatedTimeLeft render_closure_def arming_def)
qed

lemma core_inv_commit [simp]: "core_inv (commit old new) = core_inv new"
  by (simp add: core_inv_def visited_upto_def)

lemma parseSitemap_unvisited: "u \<in> set (parseSitemap P c) \<Longrightarrow> \<not> visited u"
  by (auto simp: parseSitemap_def Let_def)

lemma visited_upto_parse:
  "urls s = parseSitemap P c \<Longrightarrow> currentIndex s = - 1 \<Longrightarrow> visited_upto s"
  by (auto simp: visited_upto_def dest: parseSitemap_unvisited [OF nth_mem])



lemma inv_init: "app_inv init"
  by (simp add: app_inv_def core_inv_def sched_inv_def visited_upto_def timer_ok_def
      arming_def eta_def init_def)

lemma inv_commitI:
  assumes "app_inv s" and "core_inv new"
    and "deps s = deps new \<Longrightarrow>
           timer new = timer s \<and> countdownTimer new = countdownTimer s
           \<and> estimatedTimeLeft new = estimatedTimeLeft s"
  shows "app_inv (commit s new)"
  using assms by (simp add: app_inv_def sched_inv_commit)

lemma inv_SitemapUrlInput: "app_inv s \<Longrightarrow> app_inv (commit s (s\<lparr>sitemapUrl := v\<rparr>))"
  by (rule inv_commitI) (simp_all add: app_inv_def core_inv_def visited_upto_def)

lemma inv_handleUrlSubmit: "app_inv s \<Longrightarrow> app_inv (commit s (handleUrlSubmit s))"
  by (rule inv_commitI)
    (simp_all add: app_inv_def core_inv_def visited_upto_def handleUrlSubmit_def
      fetchSitemap_begin_def)

lemma core_inv_catch: "core_inv s \<Longrightarrow> core_inv (fetchSitemap_catch s\<lparr>isLoading := False\<rparr>)"
  by (simp add: core_inv_def visited_upto_def fetchSitemap_catch_def)

lemma core_inv_loaded:
  "core_inv s \<Longrightarrow>
   core_inv (s\<lparr>sitemapContent := content, urls := parseSitemap P content,
               currentIndex := - 1, isLoading := b, error := e\<rparr>)"
  by (simp add: core_inv_def visited_upto_parse)

lemma inv_fetchSitemap_settle: "app_inv s \<Longrightarrow> app_inv (commit s (fetchSitemap_settle P r s))"
proof (rule inv_commitI)
  assume "app_inv s"
  then have c: "core_inv s" by (simp add: app_inv_def)
  show "core_inv (fetchSitemap_settle P r s)"
    using core_inv_catch [OF c] core_inv_loaded [OF c, where P = P and b = False and e = "error s"]
    by (simp add: fetchSitemap_settle_def split: fetch_outcome.splits option.splits)
  show "timer (fetchSitemap_settle P r s) = timer s
      \<and> countdownTimer (fetchSitemap_settle P r s) = countdownTimer s
      \<and> estimatedTimeLeft (fetchSitemap_settle P r s) = estimatedTimeLeft s"
    by (simp add: fetchSitemap_settle_def fetchSitemap_catch_def
        split: fetch_outcome.splits option.splits)
qed

lemma inv_handleFileUpload: "app_inv s \<Longrightarrow> app_inv (commit s (handleFileUpload P content s))"
proof (rule inv_commitI)
  assume "app_inv s"
  then have c: "core_inv s" by (simp add: app_inv_def)
  show "core_inv (handleFileUpload P content s)"
    using core_inv_loaded [OF c, where P = P and content = content and b = "isLoading s" and e = "[]"]
    by (simp add: handleFileUpload_def)
  show "timer (handleFileUpload P content s) = timer s
      \<and> countdownTimer (handleFileUpload P content s) = countdownTimer s
      \<and> estimatedTimeLeft (handleFileUpload P content s) = estimatedTimeLeft s"
    by (simp add: handleFileUpload_def)
qed

lemma inv_handleTimeDelayChange: "app_inv s \<Longrightarrow> app_inv (commit s (handleTimeDelayChange v s))"
  by (rule inv_commitI)
    (auto simp: app_inv_def core_inv_def visited_upto_def handleTimeDelayChange_def
      split: option.splits)

lemma inv_startProcessing:
  "app_inv s \<Longrightarrow> \<not> isProcessing s \<Longrightarrow> app_inv (commit s (startProcessing s))"
  by (rule inv_commitI)
    (simp_all add: app_inv_def core_inv_def visited_upto_def startProcessing_def)

lemma inv_cancel: "app_inv s \<Longrightarrow> app_inv (commit s (s\<lparr>showPermissionDialog := False\<rparr>))"
  by (rule inv_commitI) (simp_all add: app_inv_def core_inv_def visited_upto_def)

lemma inv_pause:
  "app_inv s \<Longrightarrow> isProcessing s \<Longrightarrow> app_inv (commit s (s\<lparr>isPaused := \<not> isPaused s\<rparr>))"
  by (rule inv_commitI) (simp_all add: app_inv_def core_inv_def visited_upto_def)

lemma inv_tick:
  "app_inv s \<Longrightarrow> app_inv (commit s (s\<lparr>nextPageCountdown := max 0 (nextPageCountdown s - 1)\<rparr>))"
  by (rule inv_commitI) (simp_all add: app_inv_def core_inv_def visited_upto_def)

lemma inv_resetProcess: "app_inv s \<Longrightarrow> app_inv (commit s (resetProcess s))"
proof (rule inv_commitI)
  assume i: "app_inv s"
  then show "core_inv (resetProcess s)"
    by (simp add: app_inv_def core_inv_def visited_upto_def resetProcess_def)
  assume "deps s = deps (resetProcess s)"
  then have "\<not> isProcessing s" by (simp add: deps_def resetProcess_def)
  with i have "estimatedTimeLeft s = []" by (simp add: app_inv_def sched_inv_def eta_def)
  then show "timer (resetProcess s) = timer s
      \<and> countdownTimer (resetProcess s) = countdownTimer s
      \<and> estimatedTimeLeft (resetProcess s) = estimatedTimeLeft s"
    by (simp add: resetProcess_def)
qed


lemma processNextUrl_advance:
  assumes "cl_currentIndex c < int (length (cl_urls c)) - 1" and "\<not> cl_isPaused c"
    and "- 1 \<le> cl_currentIndex c"
  shows "processNextUrl c s =
     s\<lparr>currentIndex := cl_currentIndex c + 1,
       opened := opened s @ [url (cl_urls c ! nat (cl_currentIndex c + 1))],
       urls := mark_visited (cl_currentIndex c + 1) (urls s)\<rparr>"
  using assms by (simp add: processNextUrl_def Let_def)


lemma visited_upto_advance:
  assumes "visited_upto s" and "- 1 \<le> currentIndex s"
  shows "visited_upto (s\<lparr>currentIndex := currentIndex s + 1,
            urls := mark_visited (currentIndex s + 1) (urls s)\<rparr>)"
  using assms by (auto simp: visited_upto_def nth_mark_visited)

lemma core_inv_confirmStart:
  assumes c: "core_inv s" and d: "showPermissionDialog s"
  shows "core_inv (confirmStart s)"
proof -
  from c d have idle: "\<not> isProcessing s" "currentIndex s = - 1" "\<not> isPaused s"
    by (simp_all add: core_inv_def)
  from c have v: "visited_upto s" and t: "20 \<le> timeDelay s" by (simp_all add: core_inv_def)
  show ?thesis
  proof (cases "urls s = []")
    case True
    with idle have "confirmStart s =
        s\<lparr>showPermissionDialog := False, isProcessing := False, isPaused := False\<rparr>"
      by (simp add: confirmStart_def processNextUrl_def render_closure_def)
    with c idle show ?thesis by (simp add: core_inv_def visited_upto_def)
  next
    case False
    then have "0 < length (urls s)" by simp
    with idle have eq: "confirmStart s =
        s\<lparr>showPermissionDialog := False, isProcessing := True, isPaused := False,
          currentIndex := 0, opened := opened s @ [url (urls s ! 0)],
          urls := mark_visited 0 (urls s)\<rparr>"
      by (simp add: confirmStart_def processNextUrl_def render_closure_def Let_def)
    from visited_upto_advance [OF v] idle
    have "visited_upto (s\<lparr>currentIndex := 0, urls := mark_visited 0 (urls s)\<rparr>)" by simp
    then have "visited_upto (confirmStart s)" by (simp add: eq visited_upto_def)
    with t show ?thesis by (simp add: core_inv_def eq)
  qed
qed

lemma inv_confirmStart:
  "app_inv s \<Longrightarrow> showPermissionDialog s \<Longrightarrow> app_inv (commit s (confirmStart s))"
proof (rule inv_commitI)
  assume "app_inv s" "showPermissionDialog s"
  then show "core_inv (confirmStart s)" by (simp add: app_inv_def core_inv_confirmStart)
  show "timer (confirmStart s) = timer s
      \<and> countdownTimer (confirmStart s) = countdownTimer s
      \<and> estimatedTimeLeft (confirmStart s) = estimatedTimeLeft s"
    by (simp add: confirmStart_def processNextUrl_def Let_def)
qed

lemma timeout_advances:
  assumes i: "app_inv s" and t: "timer s = Some c"
  shows "processNextUrl c (s\<lparr>timer := None\<rparr>) =
     s\<lparr>timer := None, currentIndex := currentIndex s + 1,
       opened := opened s @ [url (cl_urls c ! nat (currentIndex s + 1))],
       urls := mark_visited (currentIndex s + 1) (urls s)\<rparr>"
proof -
  from i t have a: "arming s" and m: "cl_currentIndex c = currentIndex s"
    "length (cl_urls c) = length (urls s)" "\<not> cl_isPaused c"
    by (simp_all add: app_inv_def sched_inv_def timer_ok_def)
  from i have "- 1 \<le> currentIndex s" by (simp add: app_inv_def core_inv_def)
  with a m show ?thesis
    by (simp add: processNextUrl_advance arming_def)
qed

lemma inv_timeout:
  assumes i: "app_inv s" and t: "timer s = Some c"
  shows "app_inv (commit s (processNextUrl c (s\<lparr>timer := None\<rparr>)))"
proof (rule inv_commitI [OF i])
  let ?new = "processNextUrl c (s\<lparr>timer := None\<rparr>)"
  note eq = timeout_advances [OF i t]
  from i t have a: "arming s" by (simp add: app_inv_def sched_inv_def timer_ok_def)
  from i have c: "core_inv s" by (simp add: app_inv_def)
  then have "visited_upto (s\<lparr>currentIndex := currentIndex s + 1,
            urls := mark_visited (currentIndex s + 1) (urls s)\<rparr>)"
    by (simp add: core_inv_def visited_upto_advance)
  then have "visited_upto ?new" by (simp add: eq visited_upto_def)
  with c a show "core_inv ?new" by (simp add: core_inv_def eq arming_def)
  assume "deps s = deps ?new"
  then have False by (simp add: eq deps_def)
  then show "timer ?new = timer s \<and> countdownTimer ?new = countdownTimer s
      \<and> estimatedTimeLeft ?new = estimatedTimeLeft s" ..
qed

lemma inv_dispatch: "app_inv s \<Longrightarrow> app_inv (dispatch P e s)"
  by (cases e)
    (auto simp: dispatch_def handle_def enabled_def inv_SitemapUrlInput inv_handleUrlSubmit
      inv_fetchSitemap_settle inv_handleFileUpload inv_handleTimeDelayChange
      inv_startProcessing inv_cancel inv_confirmStart inv_pause inv_resetProcess
      inv_timeout inv_tick)

lemma inv_foldl: "app_inv s \<Longrightarrow> app_inv (foldl (\<lambda>s e. dispatch P e s) s evs)"
  by (induction evs arbitrary: s) (simp_all add: inv_dispatch)

lemma inv_run: "app_inv (run P evs)"
  by (simp add: run_def inv_foldl inv_init)

section \<open>Consequences for every run\<close>

lemma core_inv_run: "core_inv (run P evs)"
  using inv_run [of P evs] by (simp add: app_inv_def)

lemma sched_inv_run: "sched_inv (run P evs)"
  using inv_run [of P evs] by (simp add: app_inv_def)

lemma abc_two_visits:
  "urls (run (only_document abc_doc) two_visits) =
     [\<lparr>url = ''A'', visited = True\<rparr>, \<lparr>url = ''B'', visited = True\<rparr>,
      \<lparr>url = ''C'', visited = False\<rparr>]"
  by code_simp

lemma timer_free:
  assumes "\<not> arming (run P evs)"
  shows "timer (run P evs) = None" and "\<not> countdownTimer (run P evs)"
  using sched_inv_run [of P evs] assms
  by (simp_all add: sched_inv_def timer_ok_def split: option.splits)

lemma reset_result:
  "handle P ResetClicked s =
     commit s (s\<lparr>urls := map (\<lambda>u. u\<lparr>visited := False\<rparr>) (urls s), currentIndex := - 1,
       isProcessing := False, isPaused := False, estimatedTimeLeft := [],
       nextPageCountdown := 0\<rparr>)"
  by (simp add: handle_def resetProcess_def)

lemma reset_twice: "handle P ResetClicked (handle P ResetClicked s) = handle P ResetClicked s"
proof -
  let ?r = "handle P ResetClicked s"
  have f: "currentIndex ?r = - 1" "\<not> isProcessing ?r" "\<not> isPaused ?r"
    "urls ?r = map (\<lambda>u. u\<lparr>visited := False\<rparr>) (urls s)"
    by (simp_all add: reset_result)
  have e: "estimatedTimeLeft ?r = []" "nextPageCountdown ?r = 0"
    by (simp_all add: reset_result commit_estimatedTimeLeft commit_nextPageCountdown
        eta_def arming_def)
  have "resetProcess ?r = ?r"
    using f e by (simp add: resetProcess_def comp_def)
  moreover have "commit ?r ?r = ?r" by (simp add: commit_def)
  ultimately show ?thesis by (simp add: handle_def)
qed

section \<open>The claims\<close>

subsection \<open>C1: the visited records form a prefix\<close>

text \<open>
  C1. After every sequence of events (loads, start, steps, pause, resume, reset), the
  visited flags form a prefix of the URL list: a visited record at index \<open>i\<close> has only
  visited records before it.
\<close>

theorem visited_prefix:
  "\<forall>i < length (urls (run P evs)).
     visited (urls (run P evs) ! i) \<longrightarrow> (\<forall>j < i. visited (urls (run P evs) ! j))"
proof (intro allI impI)
  fix i j
  assume i: "i < length (urls (run P evs))" and v: "visited (urls (run P evs) ! i)"
    and j: "j < i"
  have upto: "visited_upto (run P evs)"
    using core_inv_run [of P evs] by (simp add: core_inv_def)
  from upto i v have "int i \<le> currentIndex (run P evs)" by (simp add: visited_upto_def)
  with j have "int j \<le> currentIndex (run P evs)" by simp
  moreover from i j have "j < length (urls (run P evs))" by simp
  ultimately show "visited (urls (run P evs) ! j)"
    using upto by (simp add: visited_upto_def)
qed

text \<open>After A and B of three URLs have been visited, B's flag implies A's.\<close>

theorem visited_prefix_witness:
  "1 < length (urls (run (only_document abc_doc) two_visits))
   \<and> visited (urls (run (only_document abc_doc) two_visits) ! 1)
   \<and> visited (urls (run (only_document abc_doc) two_visits) ! 0)"
proof -
  have len: "1 < length (urls (run (only_document abc_doc) two_visits))"
    and v1: "visited (urls (run (only_document abc_doc) two_visits) ! 1)"
    by (simp_all add: abc_two_visits)
  from visited_prefix [of "only_document abc_doc" two_visits] len v1
  have "\<forall>j < 1. visited (urls (run (only_document abc_doc) two_visits) ! j)"
    by blast
  then have "visited (urls (run (only_document abc_doc) two_visits) ! 0)" by simp
  with len v1 show ?thesis by simp
qed

subsection \<open>C2: the sitemap parser\<close>

lemma getElementsByTagName_preorder:
  "getElementsByTagName name d = filter (is_element name) (preorder d)"
proof (induction d)
  case (Text t)
  show ?case by simp
next
  case (Element n cs)
  then have "map (getElementsByTagName name) cs = map (\<lambda>c. filter (is_element name) (preorder c)) cs"
    by simp
  then have "concat (map (getElementsByTagName name) cs)
      = concat (map (\<lambda>c. filter (is_element name) (preorder c)) cs)"
    by (rule arg_cong)
  then show ?case by (simp add: filter_concat comp_def del: map_eq_conv)
qed

lemma length_getElementsByTagName:
  "length (getElementsByTagName name d) = count_tag name d"
proof (induction d)
  case (Text t)
  show ?case by simp
next
  case (Element n cs)
  then have "map (\<lambda>c. length (getElementsByTagName name c)) cs = map (count_tag name) cs"
    by simp
  then have "sum_list (map (\<lambda>c. length (getElementsByTagName name c)) cs)
      = sum_list (map (count_tag name) cs)"
    by (rule arg_cong)
  then show ?case by (simp add: length_concat comp_def)
qed

text \<open>
  C2 as stated fails: the text content of a \<open><loc>\<close> element is stored untrimmed.
\<close>

theorem parseSitemap_untrimmed_counterexample:
  "parseSitemap (only_document padded_doc) padded_src
     = [\<lparr>url = '' https://a.example/ '', visited = False\<rparr>]
   \<and> spec_parseSitemap (only_document padded_doc) padded_src
     = [\<lparr>url = ''https://a.example/'', visited = False\<rparr>]
   \<and> parseSitemap (only_document padded_doc) padded_src
     \<noteq> spec_parseSitemap (only_document padded_doc) padded_src"
  by code_simp

text \<open>
  C2, amended. For a document with N \<open><loc>\<close> elements, \<open>parseSitemap\<close> returns exactly N
  records, in document order, none of them visited; the url of each is the text content
  of its element as it stands (not trimmed), so that an element with no text gives a
  record with the empty url rather than no record.
\<close>

theorem parseSitemap_records:
  "length (parseSitemap P content) = count_tag ''loc'' (P content)
   \<and> map url (parseSitemap P content)
     = map textContent (filter (is_element ''loc'') (preorder (P content)))
   \<and> map visited (parseSitemap P content) = replicate (count_tag ''loc'' (P content)) False"
proof -
  have u: "map url (parseSitemap P content)
     = map textContent (getElementsByTagName ''loc'' (P content))"
    by (simp add: parseSitemap_def js_or_def comp_def)
  have v: "map visited (parseSitemap P content)
     = replicate (length (getElementsByTagName ''loc'' (P content))) False"
    by (simp add: parseSitemap_def comp_def map_replicate_const)
  have l: "length (parseSitemap P content) = length (getElementsByTagName ''loc'' (P content))"
    by (simp add: parseSitemap_def)
  from u v l show ?thesis
    by (simp add: getElementsByTagName_preorder [symmetric] length_getElementsByTagName)
qed

text \<open>A sitemap with one padded location.\<close>

theorem parseSitemap_records_witness:
  "count_tag ''loc'' (only_document padded_doc padded_src) = 1
   \<and> length (parseSitemap (only_document padded_doc) padded_src) = 1
   \<and> map url (parseSitemap (only_document padded_doc) padded_src) = ['' https://a.example/ '']
   \<and> map visited (parseSitemap (only_document padded_doc) padded_src) = [False]"
proof -
  have c: "count_tag ''loc'' (only_document padded_doc padded_src) = 1" by code_simp
  have t: "map textContent (filter (is_element ''loc'')
             (preorder (only_document padded_doc padded_src))) = ['' https://a.example/ '']"
    by code_simp
  from parseSitemap_records [of "only_document padded_doc" padded_src] c t
  show ?thesis by simp
qed

subsection \<open>C3: the estimate of the remaining time\<close>










subsection \<open>C4: the minimum delay\<close>

text \<open>
  C4. The delay is at least 20 seconds after every sequence of events, whatever values
  were typed into the delay input; and in any state that is processing, a change of the
  delay input leaves the delay as it is, whatever the value.
\<close>

theorem delay_at_least_20:
  "20 \<le> timeDelay (run P evs)
   \<and> (isProcessing s \<longrightarrow> timeDelay (handle P (TimeDelayInput v) s) = timeDelay s)"
  using core_inv_run [of P evs]
  by (simp add: core_inv_def handle_def handleTimeDelayChange_def split: option.splits)

text \<open>Typing 5 before anything else changes nothing, and so does a change to 45 while
  processing.\<close>

theorem delay_at_least_20_witness:
  "isProcessing (run (only_document abc_doc) two_visits)
   \<and> 20 \<le> timeDelay (run (only_document abc_doc) (TimeDelayInput (Some 5) # two_visits))
   \<and> timeDelay (handle (only_document abc_doc) (TimeDelayInput (Some 45))
        (run (only_document abc_doc) two_visits))
      = timeDelay (run (only_document abc_doc) two_visits)"
proof -
  have p: "isProcessing (run (only_document abc_doc) two_visits)" by code_simp
  with delay_at_least_20 [of "only_document abc_doc" "TimeDelayInput (Some 5) # two_visits"
      "run (only_document abc_doc) two_visits" "Some 45"]
  show ?thesis by simp
qed

subsection \<open>C5: reset\<close>

text \<open>
  C5. Resetting twice in a row is the same as resetting once, from every state a run can
  reach; after the reset no record is visited, \<open>currentIndex\<close> is -1, the sequencer
  neither processes nor pauses, the countdown is 0, the estimate is empty and no timer is
  pending.
\<close>

theorem reset_idempotent:
  "handle P ResetClicked (handle P ResetClicked (run P evs)) = handle P ResetClicked (run P evs)
   \<and> list_all (\<lambda>u. \<not> visited u) (urls (handle P ResetClicked (run P evs)))
   \<and> currentIndex (handle P ResetClicked (run P evs)) = - 1
   \<and> \<not> isProcessing (handle P ResetClicked (run P evs))
   \<and> \<not> isPaused (handle P ResetClicked (run P evs))
   \<and> nextPageCountdown (handle P ResetClicked (run P evs)) = 0
   \<and> estimatedTimeLeft (handle P ResetClicked (run P evs)) = []
   \<and> timer (handle P ResetClicked (run P evs)) = None
   \<and> \<not> countdownTimer (handle P ResetClicked (run P evs))"
proof -
  let ?s = "run P evs" and ?r = "handle P ResetClicked (run P evs)"
  have "app_inv ?r"
    using inv_resetProcess [OF inv_run [of P evs]] by (simp add: handle_def)
  then have sch: "sched_inv ?r" by (simp add: app_inv_def)
  have np: "\<not> isProcessing ?r" by (simp add: reset_result)
  then have "\<not> arming ?r" by (simp add: arming_def)
  with sch have t: "timer ?r = None" "\<not> countdownTimer ?r"
    by (simp_all add: sched_inv_def timer_ok_def split: option.splits)
  have v: "list_all (\<lambda>u. \<not> visited u) (urls ?r)"
    by (simp add: reset_result list_all_iff)
  have e: "estimatedTimeLeft ?r = []" "nextPageCountdown ?r = 0"
    by (simp_all add: reset_result commit_estimatedTimeLeft commit_nextPageCountdown
        eta_def arming_def)
  have i: "currentIndex ?r = - 1" "\<not> isPaused ?r" by (simp_all add: reset_result)
  from reset_twice [of P ?s] v i np e t show ?thesis by simp
qed

text \<open>A reset in the middle of a run of three URLs, with a timeout pending.\<close>

theorem reset_idempotent_witness:
  "handle (only_document abc_doc) ResetClicked
     (handle (only_document abc_doc) ResetClicked (run (only_document abc_doc) two_visits))
   = handle (only_document abc_doc) ResetClicked (run (only_document abc_doc) two_visits)
   \<and> urls (handle (only_document abc_doc) ResetClicked (run (only_document abc_doc) two_visits))
     = [\<lparr>url = ''A'', visited = False\<rparr>, \<lparr>url = ''B'', visited = False\<rparr>,
        \<lparr>url = ''C'', visited = False\<rparr>]
   \<and> timer (run (only_document abc_doc) two_visits) \<noteq> None
   \<and> timer (handle (only_document abc_doc) ResetClicked (run (only_document abc_doc) two_visits))
     = None"
proof -
  have u: "urls (handle (only_document abc_doc) ResetClicked
              (run (only_document abc_doc) two_visits))
     = [\<lparr>url = ''A'', visited = False\<rparr>, \<lparr>url = ''B'', visited = False\<rparr>,
        \<lparr>url = ''C'', visited = False\<rparr>]"
    by code_simp
  have t: "timer (run (only_document abc_doc) two_visits) \<noteq> None" by code_simp
  from reset_idempotent [of "only_document abc_doc" two_visits] u t show ?thesis by simp
qed

subsection \<open>C6: pause and resume\<close>

lemma reset_clears_timers:
  "timer (handle P ResetClicked (run P evs)) = None"
  "\<not> countdownTimer (handle P ResetClicked (run P evs))"
proof -
  let ?r = "handle P ResetClicked (run P evs)"
  have "app_inv ?r"
    using inv_resetProcess [OF inv_run [of P evs]] by (simp add: handle_def)
  then have "timer_ok ?r" "countdownTimer ?r = arming ?r"
    by (simp_all add: app_inv_def sched_inv_def)
  moreover have "\<not> arming ?r" by (simp add: reset_result arming_def)
  ultimately show "timer ?r = None" "\<not> countdownTimer ?r"
    by (simp_all add: timer_ok_def split: option.splits)
qed

lemma resume_rearms:
  assumes "isPaused s" and "isProcessing s" and "currentIndex s < int (length (urls s)) - 1"
  shows "nextPageCountdown (handle P PauseResumeClicked s) = timeDelay s"
    and "timer (handle P PauseResumeClicked s) = Some (render_closure (s\<lparr>isPaused := False\<rparr>))"
    and "countdownTimer (handle P PauseResumeClicked s)"
  using assms
  by (simp_all add: handle_def commit_nextPageCountdown commit_timer commit_countdownTimer
      deps_def arming_def)

text \<open>
  C6 as stated fails: when the last URL has been visited the sequencer is still
  processing, and a pause followed by a resume leaves the countdown where it was. For a
  sitemap of one URL that is 0, not the delay of 30.
\<close>

theorem resume_without_step_counterexample:
  "isProcessing (run (only_document single_doc) single_paused)
   \<and> isPaused (run (only_document single_doc) single_paused)
   \<and> enabled PauseResumeClicked (run (only_document single_doc) single_paused)
   \<and> \<not> isPaused (dispatch (only_document single_doc) PauseResumeClicked
          (run (only_document single_doc) single_paused))
   \<and> timeDelay (dispatch (only_document single_doc) PauseResumeClicked
          (run (only_document single_doc) single_paused)) = 30
   \<and> nextPageCountdown (dispatch (only_document single_doc) PauseResumeClicked
          (run (only_document single_doc) single_paused)) = 0
   \<and> nextPageCountdown (dispatch (only_document single_doc) PauseResumeClicked
          (run (only_document single_doc) single_paused))
       \<noteq> timeDelay (dispatch (only_document single_doc) PauseResumeClicked
          (run (only_document single_doc) single_paused))"
  by code_simp

text \<open>
  C6, amended. In every state a run can reach, while \<open>isPaused\<close> holds no timeout and no
  interval is pending, so that a timer event changes nothing (neither \<open>currentIndex\<close>
  nor a visited flag), and the same holds right after a reset; and a resume event in a
  paused state with a further URL to visit (\<open>currentIndex < length - 1\<close>) restarts the
  countdown at the full delay and schedules the next step.
\<close>

theorem paused_then_resumed:
  "(isPaused (run P evs) \<longrightarrow>
      handle P TimeoutFired (run P evs) = run P evs
      \<and> handle P IntervalTick (run P evs) = run P evs)
   \<and> handle P TimeoutFired (handle P ResetClicked (run P evs))
       = handle P ResetClicked (run P evs)
   \<and> handle P IntervalTick (handle P ResetClicked (run P evs))
       = handle P ResetClicked (run P evs)
   \<and> (isPaused (run P evs) \<and> isProcessing (run P evs)
        \<and> currentIndex (run P evs) < int (length (urls (run P evs))) - 1 \<longrightarrow>
      nextPageCountdown (handle P PauseResumeClicked (run P evs)) = timeDelay (run P evs)
      \<and> timer (handle P PauseResumeClicked (run P evs))
          = Some (render_closure ((run P evs)\<lparr>isPaused := False\<rparr>))
      \<and> countdownTimer (handle P PauseResumeClicked (run P evs)))"
proof -
  have paused: "isPaused (run P evs) \<longrightarrow>
      handle P TimeoutFired (run P evs) = run P evs
      \<and> handle P IntervalTick (run P evs) = run P evs"
  proof
    assume "isPaused (run P evs)"
    then have "\<not> arming (run P evs)" by (simp add: arming_def)
    then show "handle P TimeoutFired (run P evs) = run P evs
      \<and> handle P IntervalTick (run P evs) = run P evs"
      using timer_free [of P evs] by (simp add: handle_def)
  qed
  have reset: "handle P TimeoutFired (handle P ResetClicked (run P evs))
       = handle P ResetClicked (run P evs)"
    "handle P IntervalTick (handle P ResetClicked (run P evs))
       = handle P ResetClicked (run P evs)"
    using reset_clears_timers [of P evs]
    by (simp_all add: handle_def [of P TimeoutFired] handle_def [of P IntervalTick])
  from paused reset resume_rearms [of "run P evs" P] show ?thesis by blast
qed

text \<open>Paused two seconds into the countdown to B: the timeout does nothing, and the
  resume sets the countdown from 28 back to 30.\<close>

theorem paused_then_resumed_witness:
  "isPaused (run (only_document abc_doc) paused_midway)
   \<and> isProcessing (run (only_document abc_doc) paused_midway)
   \<and> currentIndex (run (only_document abc_doc) paused_midway)
       < int (length (urls (run (only_document abc_doc) paused_midway))) - 1
   \<and> nextPageCountdown (run (only_document abc_doc) paused_midway) = 28
   \<and> handle (only_document abc_doc) TimeoutFired (run (only_document abc_doc) paused_midway)
       = run (only_document abc_doc) paused_midway
   \<and> nextPageCountdown (handle (only_document abc_doc) PauseResumeClicked
        (run (only_document abc_doc) paused_midway)) = 30"
proof -
  have h: "isPaused (run (only_document abc_doc) paused_midway)"
    "isProcessing (run (only_document abc_doc) paused_midway)"
    "currentIndex (run (only_document abc_doc) paused_midway)
       < int (length (urls (run (only_document abc_doc) paused_midway))) - 1"
    by code_simp+
  have v: "nextPageCountdown (run (only_document abc_doc) paused_midway) = 28"
    "timeDelay (run (only_document abc_doc) paused_midway) = 30"
    by code_simp+
  from paused_then_resumed [of "only_document abc_doc" paused_midway] h v
  show ?thesis by simp
qed

subsection \<open>C7: the step at the last index\<close>






subsection \<open>C8: remote loads\<close>

lemma failed_fetch_state:
  assumes "fetch_fails r"
  shows "fetchSitemap_settle P r s = s\<lparr>error := fetch_failed_message, urls := [], isLoading := False\<rparr>"
  using assms
  by (simp add: fetch_fails_def fetchSitemap_settle_def fetchSitemap_catch_def
      split: fetch_outcome.splits option.splits)

lemma fetch_failed_message_not_empty: "fetch_failed_message \<noteq> []"
  by (simp add: fetch_failed_message_def)

lemma commit_same_deps:
  assumes "deps new' = deps new" and "render_closure new' = render_closure new"
    and "new' = new\<lparr>isLoading := l, error := e\<rparr>"
  shows "commit old new' = (commit old new)\<lparr>isLoading := l, error := e\<rparr>"
proof -
  have "arming new' = arming new" by (rule arming_deps [OF assms(1)])
  moreover have "eta new' = eta new" by (rule eta_deps [OF assms(1)])
  moreover have "timeDelay new' = timeDelay new" using assms(3) by simp
  ultimately show ?thesis
    using assms by (simp add: commit_def Let_def)
qed

lemma successful_fetch_as_file:
  "handle P (FetchSettled (Response True (Some content))) s
     = (handle P (FileLoaded content) s)\<lparr>isLoading := False, error := error s\<rparr>"
proof -
  let ?file = "handleFileUpload P content s"
  let ?net = "fetchSitemap_settle P (Response True (Some content)) s"
  have n: "?net = ?file\<lparr>isLoading := False, error := error s\<rparr>"
    by (simp add: fetchSitemap_settle_def handleFileUpload_def)
  have "commit s ?net = (commit s ?file)\<lparr>isLoading := False, error := error s\<rparr>"
    by (rule commit_same_deps [OF _ _ n]) (simp_all add: n deps_def render_closure_def)
  then show ?thesis by (simp add: handle_def)
qed

lemma submit_then_success:
  assumes "sitemapUrl s \<noteq> []"
  shows "handle P (FetchSettled (Response True (Some content))) (handle P UrlSubmit s)
     = (handle P (FileLoaded content) s)\<lparr>isLoading := False\<rparr>"
proof -
  have d: "deps (fetchSitemap_begin s) = deps s" by (simp add: deps_def fetchSitemap_begin_def)
  have b: "handle P UrlSubmit s = fetchSitemap_begin s"
    using assms d by (simp add: handle_def handleUrlSubmit_def commit_def)
  let ?s1 = "fetchSitemap_begin s"
  let ?file = "handleFileUpload P content s"
  let ?net = "fetchSitemap_settle P (Response True (Some content)) ?s1"
  have n: "?net = ?file\<lparr>isLoading := False, error := []\<rparr>"
    by (simp add: fetchSitemap_settle_def handleFileUpload_def fetchSitemap_begin_def)
  have c: "commit ?s1 ?net = (commit ?s1 ?file)\<lparr>isLoading := False, error := []\<rparr>"
    by (rule commit_same_deps [OF _ _ n]) (simp_all add: n deps_def render_closure_def)
  have "commit ?s1 ?file = commit s ?file"
    using d by (simp add: commit_def)
  with c have "commit ?s1 ?net = (commit s ?file)\<lparr>isLoading := False, error := []\<rparr>"
    by simp
  moreover have "error (commit s ?file) = []" by (simp add: handleFileUpload_def)
  ultimately have "commit ?s1 ?net = (commit s ?file)\<lparr>isLoading := False\<rparr>"
    by simp
  then show ?thesis unfolding b by (simp add: handle_def)
qed

text \<open>
  C8 as stated fails: a remote load that fails while the sequencer is at the first URL
  empties the list and shows the message, but the sequencer stays where it was,
  processing at index 0.
\<close>

theorem failed_fetch_not_idle_counterexample:
  "urls (run (only_document abc_doc) fetch_fails_while_running) = []
   \<and> error (run (only_document abc_doc) fetch_fails_while_running) = fetch_failed_message
   \<and> isProcessing (run (only_document abc_doc) fetch_fails_while_running)
   \<and> currentIndex (run (only_document abc_doc) fetch_fails_while_running) = 0
   \<and> \<not> (currentIndex (run (only_document abc_doc) fetch_fails_while_running) = - 1
          \<and> \<not> isProcessing (run (only_document abc_doc) fetch_fails_while_running))"
  by code_simp

text \<open>
  C8, amended. A remote load that fails (network error, response that is not 2xx, or
  unreadable body) leaves the non-empty error message, an empty URL list and
  \<open>isLoading = false\<close>, and it leaves \<open>isProcessing\<close> and \<open>isPaused\<close> as they were. A
  successful 2xx load replaces the list with the freshly parsed records and sets
  \<open>currentIndex = -1\<close>, as the file variant does: the two states differ in \<open>isLoading\<close> and
  \<open>error\<close> only, and a submit followed by the success gives the state of the file variant
  with \<open>isLoading = false\<close>.
\<close>

theorem remote_load_outcomes:
  "(fetch_fails r \<longrightarrow>
      error (handle P (FetchSettled r) s) = fetch_failed_message
      \<and> error (handle P (FetchSettled r) s) \<noteq> []
      \<and> urls (handle P (FetchSettled r) s) = []
      \<and> \<not> isLoading (handle P (FetchSettled r) s)
      \<and> isProcessing (handle P (FetchSettled r) s) = isProcessing s
      \<and> isPaused (handle P (FetchSettled r) s) = isPaused s)
   \<and> urls (handle P (FetchSettled (Response True (Some content))) s) = parseSitemap P content
   \<and> currentIndex (handle P (FetchSettled (Response True (Some content))) s) = - 1
   \<and> handle P (FetchSettled (Response True (Some content))) s
       = (handle P (FileLoaded content) s)\<lparr>isLoading := False, error := error s\<rparr>
   \<and> (sitemapUrl s \<noteq> [] \<longrightarrow>
      handle P (FetchSettled (Response True (Some content))) (handle P UrlSubmit s)
       = (handle P (FileLoaded content) s)\<lparr>isLoading := False\<rparr>)"
proof -
  have fail: "fetch_fails r \<longrightarrow>
      error (handle P (FetchSettled r) s) = fetch_failed_message
      \<and> error (handle P (FetchSettled r) s) \<noteq> []
      \<and> urls (handle P (FetchSettled r) s) = []
      \<and> \<not> isLoading (handle P (FetchSettled r) s)
      \<and> isProcessing (handle P (FetchSettled r) s) = isProcessing s
      \<and> isPaused (handle P (FetchSettled r) s) = isPaused s"
    by (simp add: handle_def failed_fetch_state fetch_failed_message_not_empty)
  have ok: "urls (handle P (FetchSettled (Response True (Some content))) s)
        = parseSitemap P content"
    "currentIndex (handle P (FetchSettled (Response True (Some content))) s) = - 1"
    by (simp_all add: handle_def fetchSitemap_settle_def)
  from fail ok successful_fetch_as_file [of P content s] submit_then_success [of s P content]
  show ?thesis by blast
qed

text \<open>A network failure while B is the current URL; and a successful load of the same
  sitemap after a URL has been typed.\<close>

theorem remote_load_outcomes_witness:
  "fetch_fails NetworkFailure
   \<and> isProcessing (run (only_document abc_doc) two_visits)
   \<and> urls (handle (only_document abc_doc) (FetchSettled NetworkFailure)
        (run (only_document abc_doc) two_visits)) = []
   \<and> error (handle (only_document abc_doc) (FetchSettled NetworkFailure)
        (run (only_document abc_doc) two_visits)) \<noteq> []
   \<and> isProcessing (handle (only_document abc_doc) (FetchSettled NetworkFailure)
        (run (only_document abc_doc) two_visits))
   \<and> sitemapUrl (run (only_document abc_doc) [SitemapUrlInput ''https://a.example/sitemap.xml'']) \<noteq> []
   \<and> handle (only_document abc_doc) (FetchSettled (Response True (Some abc_src)))
        (handle (only_document abc_doc) UrlSubmit
           (run (only_document abc_doc) [SitemapUrlInput ''https://a.example/sitemap.xml'']))
       = (handle (only_document abc_doc) (FileLoaded abc_src)
           (run (only_document abc_doc) [SitemapUrlInput ''https://a.example/sitemap.xml'']))
         \<lparr>isLoading := False\<rparr>"
proof -
  have f: "fetch_fails NetworkFailure" by (simp add: fetch_fails_def)
  have p: "isProcessing (run (only_document abc_doc) two_visits)" by code_simp
  have u: "sitemapUrl (run (only_document abc_doc)
             [SitemapUrlInput ''https://a.example/sitemap.xml'']) \<noteq> []"
    by code_simp
  from remote_load_outcomes [where r = NetworkFailure and P = "only_document abc_doc"
      and s = "run (only_document abc_doc) two_visits" and content = abc_src] f p
  have a: "urls (handle (only_document abc_doc) (FetchSettled NetworkFailure)
        (run (only_document abc_doc) two_visits)) = []
   \<and> error (handle (only_document abc_doc) (FetchSettled NetworkFailure)
        (run (only_document abc_doc) two_visits)) \<noteq> []
   \<and> isProcessing (handle (only_document abc_doc) (FetchSettled NetworkFailure)
        (run (only_document abc_doc) two_visits))"
    by metis
  from remote_load_outcomes [where r = NetworkFailure and P = "only_document abc_doc"
      and s = "run (only_document abc_doc) [SitemapUrlInput ''https://a.example/sitemap.xml'']"
      and content = abc_src] u
  have b: "handle (only_document abc_doc) (FetchSettled (Response True (Some abc_src)))
        (handle (only_document abc_doc) UrlSubmit
           (run (only_document abc_doc) [SitemapUrlInput ''https://a.example/sitemap.xml'']))
       = (handle (only_document abc_doc) (FileLoaded abc_src)
           (run (only_document abc_doc) [SitemapUrlInput ''https://a.example/sitemap.xml'']))
         \<lparr>isLoading := False\<rparr>"
    by blast
  from f p u a b show ?thesis by blast
qed

subsection \<open>C9: start on an empty list\<close>

lemma confirmStart_empty:
  assumes "urls s = []" and "currentIndex s = - 1"
  shows "confirmStart s =
     s\<lparr>showPermissionDialog := False, isProcessing := False, isPaused := False\<rparr>"
  using assms by (simp add: confirmStart_def processNextUrl_def render_closure_def)

lemma confirm_on_empty_list:
  assumes e: "urls (run P evs) = []" and d: "showPermissionDialog (run P evs)"
  shows "\<not> isProcessing (handle P ConfirmClicked (run P evs))"
    and "currentIndex (handle P ConfirmClicked (run P evs)) = - 1"
    and "opened (handle P ConfirmClicked (run P evs)) = opened (run P evs)"
    and "timer (handle P ConfirmClicked (run P evs)) = None"
    and "\<not> countdownTimer (handle P ConfirmClicked (run P evs))"
proof -
  let ?s = "run P evs"
  from core_inv_run [of P evs] d
  have idle: "\<not> isProcessing ?s" "currentIndex ?s = - 1" "\<not> isPaused ?s"
    by (simp_all add: core_inv_def)
  let ?new = "?s\<lparr>showPermissionDialog := False, isProcessing := False, isPaused := False\<rparr>"
  have h: "handle P ConfirmClicked ?s = commit ?s ?new"
    using confirmStart_empty [OF e idle(2)] by (simp add: handle_def)
  have same: "deps ?s = deps ?new" using idle by (simp add: deps_def)
  from idle have "\<not> arming ?s" by (simp add: arming_def)
  then have t: "timer ?s = None" "\<not> countdownTimer ?s" using timer_free [of P evs] by simp_all
  show "\<not> isProcessing (handle P ConfirmClicked ?s)"
    and "currentIndex (handle P ConfirmClicked ?s) = - 1"
    and "opened (handle P ConfirmClicked ?s) = opened ?s"
    using idle by (simp_all add: h)
  show "timer (handle P ConfirmClicked ?s) = None"
    using same t by (simp add: h commit_timer)
  show "\<not> countdownTimer (handle P ConfirmClicked ?s)"
    using same t by (simp add: h commit_countdownTimer)
qed

text \<open>
  C9. In every state a run can reach in which the URL list is empty and the dialog is
  open, confirming the start leaves the sequencer idle: not processing, \<open>currentIndex\<close> -1,
  no URL opened, no timeout and no interval pending.
\<close>

theorem start_on_empty_list:
  "urls (run P evs) = [] \<and> showPermissionDialog (run P evs) \<longrightarrow>
     \<not> isProcessing (dispatch P ConfirmClicked (run P evs))
     \<and> currentIndex (dispatch P ConfirmClicked (run P evs)) = - 1
     \<and> opened (dispatch P ConfirmClicked (run P evs)) = opened (run P evs)
     \<and> timer (dispatch P ConfirmClicked (run P evs)) = None
     \<and> \<not> countdownTimer (dispatch P ConfirmClicked (run P evs))"
proof
  assume a: "urls (run P evs) = [] \<and> showPermissionDialog (run P evs)"
  then have "dispatch P ConfirmClicked (run P evs) = handle P ConfirmClicked (run P evs)"
    by (simp add: dispatch_def enabled_def)
  with a confirm_on_empty_list [of P evs]
  show "\<not> isProcessing (dispatch P ConfirmClicked (run P evs))
     \<and> currentIndex (dispatch P ConfirmClicked (run P evs)) = - 1
     \<and> opened (dispatch P ConfirmClicked (run P evs)) = opened (run P evs)
     \<and> timer (dispatch P ConfirmClicked (run P evs)) = None
     \<and> \<not> countdownTimer (dispatch P ConfirmClicked (run P evs))"
    by simp
qed

text \<open>The dialog is opened over three URLs, and a remote load that was under way fails.\<close>

theorem start_on_empty_list_witness:
  "urls (run (only_document abc_doc) emptied_under_dialog) = []
   \<and> showPermissionDialog (run (only_document abc_doc) emptied_under_dialog)
   \<and> \<not> isProcessing (dispatch (only_document abc_doc) ConfirmClicked
          (run (only_document abc_doc) emptied_under_dialog))
   \<and> currentIndex (dispatch (only_document abc_doc) ConfirmClicked
          (run (only_document abc_doc) emptied_under_dialog)) = - 1
   \<and> opened (dispatch (only_document abc_doc) ConfirmClicked
          (run (only_document abc_doc) emptied_under_dialog)) = []
   \<and> timer (dispatch (only_document abc_doc) ConfirmClicked
          (run (only_document abc_doc) emptied_under_dialog)) = None"
proof -
  have h: "urls (run (only_document abc_doc) emptied_under_dialog) = []"
    "showPermissionDialog (run (only_document abc_doc) emptied_under_dialog)"
    and o: "opened (run (only_document abc_doc) emptied_under_dialog) = []"
    by code_simp+
  from start_on_empty_list [of "only_document abc_doc" emptied_under_dialog] h o
  show ?thesis by simp
qed

subsection \<open>C10: start at the last index\<close>

lemma complete_never_reached:
  "\<not> (urls (run P evs) \<noteq> []
      \<and> currentIndex (run P evs) = int (length (urls (run P evs))) - 1
      \<and> \<not> isProcessing (run P evs))"
  using core_inv_run [of P evs] by (auto simp: core_inv_def)




end
